theory Spec2Isabelle
  imports Main "HOL-Library.Word"
begin

unbundle bit_operations_syntax

section \<open>Data model\<close>

text \<open>
  Go's \<open>byte\<close> is an 8-bit word, \<open>uint16\<close>, \<open>uint32\<close> and \<open>uint64\<close> are words of
  their width. A byte slice \<open>[]byte\<close> and a Go \<open>string\<close> are both sequences of bytes.
\<close>

type_synonym u8 = "8 word"
type_synonym u16 = "16 word"
type_synonym u32 = "32 word"
type_synonym u64 = "64 word"
type_synonym bytes = "u8 list"

text \<open>
  \<open>type UUID [Size]byte\<close> with \<open>Size = 16\<close>: a byte list whose length is 16. The Go
  type excludes every other length, so theorems about a UUID assume \<open>length u = Size\<close>.
\<close>

type_synonym UUID = "u8 list"

definition Size :: nat where
  "Size = 16"

text \<open>\<open>var Nil = UUID{}\<close>: all 16 bytes zero.\<close>

definition Nil_UUID :: UUID where
  "Nil_UUID = replicate Size 0"

text \<open>The layout variants, \<open>VariantNCS byte = iota\<close> and its successors.\<close>

definition VariantNCS :: u8 where "VariantNCS = 0"
definition VariantRFC4122 :: u8 where "VariantRFC4122 = 1"
definition VariantMicrosoft :: u8 where "VariantMicrosoft = 2"
definition VariantFuture :: u8 where "VariantFuture = 3"

text \<open>\<open>type Timestamp uint64\<close>.\<close>

type_synonym Timestamp = u64

text \<open>A byte sequence from a string literal of the source.\<close>

definition bytes_of :: "string \<Rightarrow> bytes" where
  "bytes_of s = map of_char s"

section \<open>Bit-field accessors and mutators\<close>

text \<open>\<open>func (u UUID) Version() byte { return u[6] >> 4 }\<close>\<close>

definition Version :: "UUID \<Rightarrow> u8" where
  "Version u = drop_bit 4 (u ! 6)"

text \<open>
  \<open>Variant\<close>: a \<open>switch\<close> whose cases are tried in order; the last case falls through
  to \<open>default\<close>.
\<close>

definition Variant :: "UUID \<Rightarrow> u8" where
  "Variant u =
     (if drop_bit 7 (u ! 8) = 0x00 then VariantNCS
      else if drop_bit 6 (u ! 8) = 0x02 then VariantRFC4122
      else if drop_bit 5 (u ! 8) = 0x06 then VariantMicrosoft
      else if drop_bit 5 (u ! 8) = 0x07 then VariantFuture
      else VariantFuture)"

text \<open>
  \<open>u[6] = (u[6] & 0x0f) | (v << 4)\<close>. The shift is on a \<open>byte\<close>, so the high bits of
  \<open>v\<close> are lost.
\<close>

definition SetVersion :: "UUID \<Rightarrow> u8 \<Rightarrow> UUID" where
  "SetVersion u v = u[6 := (u ! 6 AND 0x0f) OR push_bit 4 v]"

text \<open>
  \<open>SetVariant\<close>: \<open>&\<close> binds tighter than \<open>|\<close> in Go, so each arm is
  \<open>(u[8] & mask) | pattern\<close>; the constants \<open>0xff>>k\<close> and \<open>p << k\<close> are written as the
  source has them.
\<close>

definition SetVariant :: "UUID \<Rightarrow> u8 \<Rightarrow> UUID" where
  "SetVariant u v =
     (if v = VariantNCS then u[8 := (u ! 8 AND drop_bit 1 0xff) OR push_bit 7 0x00]
      else if v = VariantRFC4122 then u[8 := (u ! 8 AND drop_bit 2 0xff) OR push_bit 6 0x02]
      else if v = VariantMicrosoft then u[8 := (u ! 8 AND drop_bit 3 0xff) OR push_bit 5 0x06]
      else u[8 := (u ! 8 AND drop_bit 3 0xff) OR push_bit 5 0x07])"

section \<open>Errors\<close>

text \<open>
  Every error the package builds, one constructor for each format string, holding the
  arguments that are formatted into the message:
  \<^item> \<open>ErrIncorrectFormat x\<close>: \<open>fmt.Errorf("uuid: incorrect UUID format in string %q", x)\<close>;
  \<^item> \<open>ErrIncorrectLength n x\<close>:
    \<open>fmt.Errorf("uuid: incorrect UUID length %d in string %q", n, x)\<close>;
  \<^item> \<open>ErrInvalidFormat\<close>: \<open>errInvalidFormat = errors.New("invalid UUID format")\<close>;
  \<^item> \<open>ErrBinaryLength n\<close>:
    \<open>fmt.Errorf("uuid: UUID must be exactly 16 bytes long, got %d bytes", n)\<close>;
  \<^item> \<open>ErrNotVersion1 s v\<close>: \<open>fmt.Errorf("uuid: %s is version %d, not version 1", u, v)\<close>,
    where \<open>s\<close> is the text that the verb \<open>%s\<close> prints for \<open>u\<close>;
  \<^item> \<open>ErrNotVersion6 s v\<close>: the same with \<open>not version 6\<close>.
  A Go \<open>error\<close> result is an \<open>error option\<close>, \<open>None\<close> for \<open>nil\<close>.
\<close>

datatype error =
    ErrIncorrectFormat bytes
  | ErrIncorrectLength nat bytes
  | ErrInvalidFormat
  | ErrBinaryLength nat
  | ErrNotVersion1 bytes u8
  | ErrNotVersion6 bytes u8

text \<open>The length that a length-mismatch message prints with \<open>%d\<close>.\<close>

fun error_length :: "error \<Rightarrow> nat option" where
  "error_length (ErrIncorrectLength n x) = Some n"
| "error_length (ErrBinaryLength n) = Some n"
| "error_length e = None"

text \<open>The input text that a message prints with \<open>%q\<close>.\<close>

fun error_input :: "error \<Rightarrow> bytes option" where
  "error_input (ErrIncorrectFormat x) = Some x"
| "error_input (ErrIncorrectLength n x) = Some x"
| "error_input e = None"

section \<open>Text encoder\<close>

text \<open>The slice expression \<open>s[i:j]\<close>, read as a value.\<close>

definition subslice :: "'a list \<Rightarrow> nat \<Rightarrow> nat \<Rightarrow> 'a list" where
  "subslice s i j = take (j - i) (drop i s)"

abbreviation byte :: "char \<Rightarrow> u8" where
  "byte c \<equiv> of_char c"

text \<open>
  \<open>hex.Encode\<close> of the Go standard library (\<open>encoding/hex\<close>):
  \<^verbatim>\<open>
  const hextable = "0123456789abcdef"
  func Encode(dst, src []byte) int {
      j := 0
      for _, v := range src {
          dst[j] = hextable[v>>4]
          dst[j+1] = hextable[v&0x0f]
          j += 2
      }
      return len(src) * 2
  }
  \<close>
  The destination of a call such as \<open>hex.Encode(dst[9:13], u[4:6])\<close> is a window of the
  buffer \<open>dst\<close> that shares its memory: the model writes \<open>dst\<close> itself, from the offset
  \<open>j\<close> where the window starts. Go panics on a write beyond the buffer; \<open>String\<close> and
  \<open>MarshalText\<close> pass a buffer of 36 bytes, where every write of \<open>encodeHex\<close> is in
  range.
\<close>

definition hextable :: bytes where
  "hextable = bytes_of ''0123456789abcdef''"

fun hex_Encode :: "bytes \<Rightarrow> nat \<Rightarrow> bytes \<Rightarrow> bytes" where
  "hex_Encode dst j [] = dst"
| "hex_Encode dst j (v # src) =
     hex_Encode (dst[j := hextable ! unat (drop_bit 4 v),
                     j + 1 := hextable ! unat (v AND 0x0f)]) (j + 2) src"

definition encodeHex :: "bytes \<Rightarrow> UUID \<Rightarrow> bytes" where
  "encodeHex dst u =
     (let dst = hex_Encode dst 0 (subslice u 0 4);
          dst = dst[8 := byte CHR ''-''];
          dst = hex_Encode dst 9 (subslice u 4 6);
          dst = dst[13 := byte CHR ''-''];
          dst = hex_Encode dst 14 (subslice u 6 8);
          dst = dst[18 := byte CHR ''-''];
          dst = hex_Encode dst 19 (subslice u 8 10);
          dst = dst[23 := byte CHR ''-''];
          dst = hex_Encode dst 24 (drop 10 u)
      in dst)"

text \<open>\<open>String\<close> and \<open>MarshalText\<close>: \<open>var buf [36]byte; encodeHex(buf[:], u)\<close>.\<close>

definition String :: "UUID \<Rightarrow> bytes" where
  "String u = encodeHex (replicate 36 0) u"

definition MarshalText :: "UUID \<Rightarrow> bytes \<times> error option" where
  "MarshalText u = (encodeHex (replicate 36 0) u, None)"

section \<open>Text decoder\<close>

definition fromHexChar :: "u8 \<Rightarrow> u8 \<times> bool" where
  "fromHexChar c =
     (if byte CHR ''0'' \<le> c \<and> c \<le> byte CHR ''9'' then (c - byte CHR ''0'', True)
      else if byte CHR ''a'' \<le> c \<and> c \<le> byte CHR ''f'' then (c - byte CHR ''a'' + 10, True)
      else if byte CHR ''A'' \<le> c \<and> c \<le> byte CHR ''F'' then (c - byte CHR ''A'' + 10, True)
      else (0, False))"

text \<open>
  The loop of \<open>decodeCanonical\<close>, \<open>for i, x := range [16]int{...}\<close>: \<open>i\<close> is the index
  of the next offset and \<open>xs\<close> the offsets still to visit. It writes \<open>u[i]\<close> in place
  and returns from inside the loop at the first pair that is not two hex digits.
  The two decoders are private and index their text without a length check:
  \<open>UnmarshalText\<close>, their only caller, passes 36 bytes to \<open>decodeCanonical\<close> and 32 to
  \<open>decodeHashLike\<close>, so every \<open>t[x]\<close> below is in range.
\<close>

fun decodeCanonical_loop :: "UUID \<Rightarrow> bytes \<Rightarrow> nat \<Rightarrow> nat list \<Rightarrow> UUID \<times> error option" where
  "decodeCanonical_loop u t i [] = (u, None)"
| "decodeCanonical_loop u t i (x # xs) =
     (let (a, ok1) = fromHexChar (t ! x);
          (b, ok2) = fromHexChar (t ! (x + 1))
      in if ok1 \<and> ok2 then decodeCanonical_loop (u[i := push_bit 4 a OR b]) t (i + 1) xs
         else (u, Some ErrInvalidFormat))"

definition canonical_offsets :: "nat list" where
  "canonical_offsets = [0, 2, 4, 6, 9, 11, 14, 16, 19, 21, 24, 26, 28, 30, 32, 34]"

definition decodeCanonical :: "UUID \<Rightarrow> bytes \<Rightarrow> UUID \<times> error option" where
  "decodeCanonical u t =
     (if t ! 8 \<noteq> byte CHR ''-'' \<or> t ! 13 \<noteq> byte CHR ''-'' \<or>
         t ! 18 \<noteq> byte CHR ''-'' \<or> t ! 23 \<noteq> byte CHR ''-''
      then (u, Some (ErrIncorrectFormat t))
      else decodeCanonical_loop u t 0 canonical_offsets)"

text \<open>The loop of \<open>decodeHashLike\<close>: \<open>for i := 0; i < 32; i += 2\<close>.\<close>

function decodeHashLike_loop :: "UUID \<Rightarrow> bytes \<Rightarrow> nat \<Rightarrow> UUID \<times> error option" where
  "decodeHashLike_loop u t i =
     (if i < 32 then
        (let (a, ok1) = fromHexChar (t ! i);
             (b, ok2) = fromHexChar (t ! (i + 1))
         in if ok1 \<and> ok2 then decodeHashLike_loop (u[i div 2 := push_bit 4 a OR b]) t (i + 2)
            else (u, Some ErrInvalidFormat))
      else (u, None))"
  by pat_completeness auto
termination
  by (relation "measure (\<lambda>(u, t, i). 32 - i)") auto

declare decodeHashLike_loop.simps [simp del]

definition decodeHashLike :: "UUID \<Rightarrow> bytes \<Rightarrow> UUID \<times> error option" where
  "decodeHashLike u t = decodeHashLike_loop u t 0"

text \<open>
  The two statements after the \<open>switch\<close> of \<open>UnmarshalText\<close>:
  \<open>if len(text) == 36 { return u.decodeCanonical(text) }; return u.decodeHashLike(text)\<close>.
\<close>

definition decodeText :: "UUID \<Rightarrow> bytes \<Rightarrow> UUID \<times> error option" where
  "decodeText u text =
     (if length text = 36 then decodeCanonical u text else decodeHashLike u text)"

text \<open>
  \<open>UnmarshalText\<close> has a pointer receiver: the result is the receiver after the call
  together with the error. The \<open>switch\<close> is on \<open>len(text)\<close>; the cases 32 and 36 are
  empty and go on to the statements after it.
\<close>

definition UnmarshalText :: "UUID \<Rightarrow> bytes \<Rightarrow> UUID \<times> error option" where
  "UnmarshalText u text =
     (let n = length text in
      if n = 32 then decodeText u text
      else if n = 36 then decodeText u text
      else if n = 34 \<or> n = 38 then
        (if text ! 0 \<noteq> byte CHR ''{'' \<or> text ! (n - 1) \<noteq> byte CHR ''}''
         then (u, Some (ErrIncorrectFormat text))
         else decodeText u (subslice text 1 (n - 1)))
      else if n = 41 \<or> n = 45 then
        (if take 9 text \<noteq> bytes_of ''urn:uuid:''
         then (u, Some (ErrIncorrectFormat (take 9 text)))
         else decodeText u (drop 9 text))
      else (u, Some (ErrIncorrectLength n text)))"

text \<open>\<open>FromString\<close>: \<open>u := UUID{}; err := u.UnmarshalText([]byte(input)); return u, err\<close>.\<close>

definition FromString :: "bytes \<Rightarrow> UUID \<times> error option" where
  "FromString input = UnmarshalText Nil_UUID input"

definition FromStringOrNil :: "bytes \<Rightarrow> UUID" where
  "FromStringOrNil input =
     (case FromString input of (uuid, Some err) \<Rightarrow> Nil_UUID | (uuid, None) \<Rightarrow> uuid)"

section \<open>Binary codec\<close>

text \<open>\<open>Bytes\<close> is \<open>u[:]\<close>, and \<open>MarshalBinary\<close> returns it with a nil error.\<close>

definition Bytes :: "UUID \<Rightarrow> bytes" where
  "Bytes u = u"

definition MarshalBinary :: "UUID \<Rightarrow> bytes \<times> error option" where
  "MarshalBinary u = (Bytes u, None)"

text \<open>
  Go's builtin \<open>copy(dst, src)\<close> copies \<open>min(len(dst), len(src))\<close> elements to the front
  of \<open>dst\<close>.
\<close>

definition copy :: "'a list \<Rightarrow> 'a list \<Rightarrow> 'a list" where
  "copy dst src = (let n = min (length dst) (length src) in take n src @ drop n dst)"

definition UnmarshalBinary :: "UUID \<Rightarrow> bytes \<Rightarrow> UUID \<times> error option" where
  "UnmarshalBinary u data =
     (if length data \<noteq> Size then (u, Some (ErrBinaryLength (length data)))
      else (copy u data, None))"

definition FromBytes :: "bytes \<Rightarrow> UUID \<times> error option" where
  "FromBytes input = UnmarshalBinary Nil_UUID input"

definition FromBytesOrNil :: "bytes \<Rightarrow> UUID" where
  "FromBytesOrNil input =
     (case FromBytes input of (uuid, Some err) \<Rightarrow> Nil_UUID | (uuid, None) \<Rightarrow> uuid)"

section \<open>Timestamp extraction\<close>

text \<open>
  \<open>binary.BigEndian\<close> of the Go standard library (\<open>encoding/binary\<close>):
  \<open>Uint16(b) = uint16(b[1]) | uint16(b[0])<<8\<close> and
  \<open>Uint32(b) = uint32(b[3]) | uint32(b[2])<<8 | uint32(b[1])<<16 | uint32(b[0])<<24\<close>.
\<close>

definition BigEndian_Uint16 :: "bytes \<Rightarrow> u16" where
  "BigEndian_Uint16 b = ucast (b ! 1) OR push_bit 8 (ucast (b ! 0))"

definition BigEndian_Uint32 :: "bytes \<Rightarrow> u32" where
  "BigEndian_Uint32 b =
     ucast (b ! 3) OR push_bit 8 (ucast (b ! 2)) OR push_bit 16 (ucast (b ! 1))
       OR push_bit 24 (ucast (b ! 0))"

text \<open>
  The verb \<open>%s\<close> on a UUID goes through its \<open>Format\<close> method, whose case \<open>'s'\<close> writes
  the result of \<open>MarshalText\<close>: the same 36 bytes as \<open>String\<close>.
\<close>

definition TimestampFromV1 :: "UUID \<Rightarrow> Timestamp \<times> error option" where
  "TimestampFromV1 u =
     (if Version u \<noteq> 1 then (0, Some (ErrNotVersion1 (String u) (Version u)))
      else
        (let low = BigEndian_Uint32 (subslice u 0 4);
             mid = BigEndian_Uint16 (subslice u 4 6);
             hi = BigEndian_Uint16 (subslice u 6 8) AND 0xfff
         in (ucast low + push_bit 32 (ucast mid) + push_bit 48 (ucast hi), None)))"

definition TimestampFromV6 :: "UUID \<Rightarrow> Timestamp \<times> error option" where
  "TimestampFromV6 u =
     (if Version u \<noteq> 6 then (0, Some (ErrNotVersion6 (String u) (Version u)))
      else
        (let hi = BigEndian_Uint32 (subslice u 0 4);
             mid = BigEndian_Uint16 (subslice u 4 6);
             low = BigEndian_Uint16 (subslice u 6 8) AND 0xfff
         in (ucast low + push_bit 12 (ucast mid) + push_bit 28 (ucast hi), None)))"

section \<open>Notions used in the statements\<close>

text \<open>
  The 16 bytes that the text \<open>6ba7b810-9dad-11d1-80b4-00c04fd430c8\<close> spells, the value
  of \<open>NamespaceDNS\<close>.
\<close>

definition NamespaceDNS_bytes :: UUID where
  "NamespaceDNS_bytes =
     [0x6b, 0xa7, 0xb8, 0x10, 0x9d, 0xad, 0x11, 0xd1,
      0x80, 0xb4, 0x00, 0xc0, 0x4f, 0xd4, 0x30, 0xc8]"

text \<open>
  The value of a byte sequence read as a big-endian number, most significant byte first.
\<close>

definition big_endian_value :: "bytes \<Rightarrow> nat" where
  "big_endian_value bs = foldl (\<lambda>acc b. acc * 256 + unat b) 0 bs"

text \<open>
  What the decoders do with one pair of characters at offset \<open>x\<close> of the text: the test
  \<open>ok1 && ok2\<close> and the byte \<open>(a << 4) | b\<close> that is stored when it holds.
\<close>

definition hexpair_ok :: "bytes \<Rightarrow> nat \<Rightarrow> bool" where
  "hexpair_ok t x = (snd (fromHexChar (t ! x)) \<and> snd (fromHexChar (t ! (x + 1))))"

definition hexpair_value :: "bytes \<Rightarrow> nat \<Rightarrow> u8" where
  "hexpair_value t x =
     push_bit 4 (fst (fromHexChar (t ! x))) OR fst (fromHexChar (t ! (x + 1)))"

text \<open>The number of leading offsets of \<open>xs\<close> whose pair is two hex digits.\<close>

definition valid_pairs :: "bytes \<Rightarrow> nat list \<Rightarrow> nat" where
  "valid_pairs t xs = length (takeWhile (hexpair_ok t) xs)"

text \<open>The offsets that the loop of \<open>decodeHashLike\<close> visits: 0, 2, ..., 30.\<close>

definition hashlike_offsets :: "nat list" where
  "hashlike_offsets = [0, 2, 4, 6, 8, 10, 12, 14, 16, 18, 20, 22, 24, 26, 28, 30]"

text \<open>
  The text that reaches the decoders: the input without its braces or without its
  \<open>urn:uuid:\<close> prefix, and the offsets of the hex pairs in it.
\<close>

definition payload :: "bytes \<Rightarrow> bytes" where
  "payload text =
     (if length text = 34 \<or> length text = 38 then butlast (tl text)
      else if length text = 41 \<or> length text = 45 then drop 9 text
      else text)"

definition pair_offsets :: "bytes \<Rightarrow> nat list" where
  "pair_offsets t = (if length t = 36 then canonical_offsets else hashlike_offsets)"

text \<open>The characters \<open>0-9\<close> and \<open>a-f\<close>.\<close>

definition lower_hex_digit :: "u8 \<Rightarrow> bool" where
  "lower_hex_digit c \<longleftrightarrow> c \<in> set (bytes_of ''0123456789abcdef'')"

section \<open>Bit-level facts about bytes\<close>

lemma nibble_mask: "(15 :: u8) = mask 4"
  by (simp add: mask_eq_exp_minus_1)

lemma small_version: "v < 16 \<Longrightarrow> v AND 0x0f = v" for v :: u8
  unfolding nibble_mask by (rule less_mask_eq) simp

lemma low_nibble_kept: "((b AND 0x0f) OR push_bit 4 v) AND 0x0f = b AND 0x0f" for b v :: u8
  unfolding nibble_mask by (rule bit_word_eqI) (auto simp: bit_simps)

lemma unat_low_nibble: "unat (v AND 0x0f) = unat v mod 16" for v :: u8
proof -
  have "v AND 15 = take_bit 4 v"
    by (simp add: take_bit_eq_mask nibble_mask)
  then show ?thesis
    by (simp add: unat_mod_distrib take_bit_eq_mod)
qed

lemma unat_shift_nibble: "unat (push_bit 4 v) = (unat v * 16) mod 256" for v :: u8
  by (simp add: push_bit_eq_mult unat_word_ariths)

lemma unat_high_nibble: "unat (drop_bit 4 v) = unat v div 16" for v :: u8
  by (simp add: unat_div_distrib drop_bit_eq_div)

lemma unat_version_byte:
  "unat ((b AND 0x0f) OR push_bit 4 v) = unat b mod 16 + (unat v * 16) mod 256" for b v :: u8
proof -
  have "(b AND 15) AND push_bit 4 v = 0"
    unfolding nibble_mask by (rule bit_word_eqI) (auto simp: bit_simps)
  then have "(b AND 15) OR push_bit 4 v = (b AND 15) + push_bit 4 v"
    by (simp add: disjunctive_add_eq_or)
  moreover have "unat (b AND 15) + unat (push_bit 4 v) < 2 ^ LENGTH(8)"
  proof -
    have "unat v * 16 mod 256 = 16 * (unat v mod 16)"
      by (simp add: mult_mod_right mult.commute)
    moreover have "unat v mod 16 < 16" "unat b mod 16 < 16"
      by simp_all
    ultimately show ?thesis
      by (simp add: unat_low_nibble unat_shift_nibble)
  qed
  then have "unat ((b AND 15) + push_bit 4 v) = unat (b AND 15) + unat (push_bit 4 v)"
    by (rule unat_add_lem [THEN iffD1])
  ultimately show ?thesis
    by (simp add: unat_low_nibble unat_shift_nibble)
qed

lemma drop_push_nibble: "drop_bit 4 (push_bit 4 v) = v AND 0x0f" for v :: u8
  unfolding nibble_mask by (rule bit_word_eqI) (auto simp: bit_simps)

lemma nibbles_join: "push_bit 4 (drop_bit 4 b) OR (b AND 0x0f) = b" for b :: u8
  unfolding nibble_mask by (rule bit_word_eqI) (auto simp: bit_simps)

lemma Nil_UUID_bytes: "Nil_UUID = [0, 0, 0, 0, 0, 0, 0, 0, 0, 0, 0, 0, 0, 0, 0, 0]"
  by (simp add: Nil_UUID_def Size_def numeral_eq_Suc)

lemma buffer36:
  "replicate 36 (0::u8) =
     [0, 0, 0, 0, 0, 0, 0, 0, 0, 0, 0, 0, 0, 0, 0, 0, 0, 0,
      0, 0, 0, 0, 0, 0, 0, 0, 0, 0, 0, 0, 0, 0, 0, 0, 0, 0]"
  by (simp add: numeral_eq_Suc)

lemma UUID_elements:
  assumes "length u = Size"
  obtains a0 a1 a2 a3 a4 a5 a6 a7 a8 a9 a10 a11 a12 a13 a14 a15
  where "u = [a0, a1, a2, a3, a4, a5, a6, a7, a8, a9, a10, a11, a12, a13, a14, a15]"
  using assms by (auto simp: Size_def eval_nat_numeral length_Suc_conv)

lemma unat_byte_less: "unat b < 256" for b :: u8
  using unsigned_less [of b, where 'a = nat] by simp

section \<open>Big-endian fields\<close>

lemma unat_Uint16: "unat (BigEndian_Uint16 [a, b]) = unat a * 256 + unat b"
proof -
  have "(ucast b :: u16) AND push_bit 8 (ucast a) = 0"
    by (rule bit_word_eqI) (auto simp: bit_simps dest: bit_imp_le_length)
  then have "BigEndian_Uint16 [a, b] = ucast b + push_bit 8 (ucast a)"
    by (simp add: BigEndian_Uint16_def disjunctive_add_eq_or)
  also have "\<dots> = of_nat (unat a * 256 + unat b)"
    by (simp add: push_bit_eq_mult)
  finally have "unat (BigEndian_Uint16 [a, b]) = (unat a * 256 + unat b) mod 2 ^ 16"
    by (simp only: unat_of_nat len_num1 len_bit0 mult_1_right) simp
  moreover have "unat a * 256 + unat b < 2 ^ 16"
    using unat_byte_less [of a] unat_byte_less [of b] by simp
  ultimately show ?thesis by simp
qed

lemma unat_Uint32:
  "unat (BigEndian_Uint32 [a, b, c, d]) =
     unat a * 2 ^ 24 + unat b * 2 ^ 16 + unat c * 2 ^ 8 + unat d"
proof -
  let ?d = "ucast d :: u32" and ?c = "push_bit 8 (ucast c) :: u32"
    and ?b = "push_bit 16 (ucast b) :: u32" and ?a = "push_bit 24 (ucast a) :: u32"
  have "?b AND ?a = 0"
    by (rule bit_word_eqI) (auto simp: bit_simps dest: bit_imp_le_length)
  then have e1: "?b OR ?a = ?b + ?a"
    by (simp add: disjunctive_add_eq_or)
  have "?c AND (?b OR ?a) = 0"
    by (rule bit_word_eqI) (auto simp: bit_simps dest: bit_imp_le_length)
  then have e2: "?c OR (?b + ?a) = ?c + (?b + ?a)"
    unfolding e1 by (simp add: disjunctive_add_eq_or)
  have "?d AND (?c OR (?b OR ?a)) = 0"
    by (rule bit_word_eqI) (auto simp: bit_simps dest: bit_imp_le_length)
  then have e3: "?d OR (?c + (?b + ?a)) = ?d + (?c + (?b + ?a))"
    unfolding e1 e2 by (simp add: disjunctive_add_eq_or)
  have "BigEndian_Uint32 [a, b, c, d] = ?d OR (?c OR (?b OR ?a))"
    by (simp add: BigEndian_Uint32_def)
  also have "\<dots> = ?d + (?c + (?b + ?a))"
    by (simp only: e1 e2 e3)
  also have "\<dots> = of_nat (unat a * 2 ^ 24 + unat b * 2 ^ 16 + unat c * 2 ^ 8 + unat d)"
    by (simp add: push_bit_eq_mult)
  finally have "unat (BigEndian_Uint32 [a, b, c, d]) =
      (unat a * 2 ^ 24 + unat b * 2 ^ 16 + unat c * 2 ^ 8 + unat d) mod 2 ^ 32"
    by (simp only: unat_of_nat len_num1 len_bit0 mult_1_right) simp
  moreover have "unat a * 2 ^ 24 + unat b * 2 ^ 16 + unat c * 2 ^ 8 + unat d < 2 ^ 32"
    using unat_byte_less [of a] unat_byte_less [of b] unat_byte_less [of c]
      unat_byte_less [of d] by simp
  ultimately show ?thesis by simp
qed

lemma unat_mask12: "unat (w AND 0xfff) = unat w mod 4096" for w :: u16
proof -
  have "(0xfff :: u16) = mask 12"
    by (simp add: mask_eq_exp_minus_1)
  then have "w AND 0xfff = take_bit 12 w"
    by (simp add: take_bit_eq_mask)
  then show ?thesis
    by (simp add: unat_mod_distrib take_bit_eq_mod)
qed

lemma unat_timestamp_V1:
  fixes a :: u32 and b c :: u16
  assumes "unat c < 2 ^ 12"
  shows "unat (ucast a + push_bit 32 (ucast b) + push_bit 48 (ucast c) :: u64) =
           unat a + unat b * 2 ^ 32 + unat c * 2 ^ 48"
    and "unat a + unat b * 2 ^ 32 + unat c * 2 ^ 48 < 2 ^ 60"
proof -
  have "unat a < 2 ^ 32" "unat b < 2 ^ 16"
    using unsigned_less [of a, where 'a = nat] unsigned_less [of b, where 'a = nat] by simp_all
  with assms show small: "unat a + unat b * 2 ^ 32 + unat c * 2 ^ 48 < 2 ^ 60"
    by simp
  have "(ucast a + push_bit 32 (ucast b) + push_bit 48 (ucast c) :: u64) =
          of_nat (unat a + unat b * 2 ^ 32 + unat c * 2 ^ 48)"
    by (simp add: push_bit_eq_mult)
  then have "unat (ucast a + push_bit 32 (ucast b) + push_bit 48 (ucast c) :: u64) =
      (unat a + unat b * 2 ^ 32 + unat c * 2 ^ 48) mod 2 ^ 64"
    by (simp only: unat_of_nat len_num1 len_bit0 mult_1_right) simp
  with small show "unat (ucast a + push_bit 32 (ucast b) + push_bit 48 (ucast c) :: u64) =
           unat a + unat b * 2 ^ 32 + unat c * 2 ^ 48"
    by simp
qed

lemma unat_timestamp_V6:
  fixes a :: u32 and b c :: u16
  assumes "unat c < 2 ^ 12"
  shows "unat (ucast c + push_bit 12 (ucast b) + push_bit 28 (ucast a) :: u64) =
           unat c + unat b * 2 ^ 12 + unat a * 2 ^ 28"
    and "unat c + unat b * 2 ^ 12 + unat a * 2 ^ 28 < 2 ^ 60"
proof -
  have "unat a < 2 ^ 32" "unat b < 2 ^ 16"
    using unsigned_less [of a, where 'a = nat] unsigned_less [of b, where 'a = nat] by simp_all
  with assms show small: "unat c + unat b * 2 ^ 12 + unat a * 2 ^ 28 < 2 ^ 60"
    by simp
  have "(ucast c + push_bit 12 (ucast b) + push_bit 28 (ucast a) :: u64) =
          of_nat (unat c + unat b * 2 ^ 12 + unat a * 2 ^ 28)"
    by (simp add: push_bit_eq_mult)
  then have "unat (ucast c + push_bit 12 (ucast b) + push_bit 28 (ucast a) :: u64) =
      (unat c + unat b * 2 ^ 12 + unat a * 2 ^ 28) mod 2 ^ 64"
    by (simp only: unat_of_nat len_num1 len_bit0 mult_1_right) simp
  with small show "unat (ucast c + push_bit 12 (ucast b) + push_bit 28 (ucast a) :: u64) =
           unat c + unat b * 2 ^ 12 + unat a * 2 ^ 28"
    by simp
qed

lemma big_endian_value_2: "big_endian_value [a, b] = unat a * 256 + unat b"
  by (simp add: big_endian_value_def)

lemma big_endian_value_4:
  "big_endian_value [a, b, c, d] = unat a * 2 ^ 24 + unat b * 2 ^ 16 + unat c * 2 ^ 8 + unat d"
  by (simp add: big_endian_value_def)

section \<open>The text decoder, step by step\<close>

lemma strip_braces:
  "2 \<le> length text \<Longrightarrow> subslice text (Suc 0) (length text - Suc 0) = butlast (tl text)"
  by (simp add: subslice_def butlast_conv_take drop_Suc)

lemma UnmarshalText_unfold:
  "UnmarshalText u text =
     (if length text = 32 \<or> length text = 36 then decodeText u text
      else if length text = 34 \<or> length text = 38 then
        (if hd text \<noteq> byte CHR ''{'' \<or> last text \<noteq> byte CHR ''}''
         then (u, Some (ErrIncorrectFormat text))
         else decodeText u (butlast (tl text)))
      else if length text = 41 \<or> length text = 45 then
        (if take 9 text \<noteq> bytes_of ''urn:uuid:''
         then (u, Some (ErrIncorrectFormat (take 9 text)))
         else decodeText u (drop 9 text))
      else (u, Some (ErrIncorrectLength (length text) text)))"
proof -
  have "hd text = text ! 0 \<and> last text = text ! (length text - 1) \<and>
        subslice text 1 (length text - 1) = butlast (tl text)"
    if "length text = 34 \<or> length text = 38"
  proof -
    from that have "text \<noteq> []" "2 \<le> length text"
      by auto
    then show ?thesis
      by (simp add: hd_conv_nth last_conv_nth strip_braces)
  qed
  then show ?thesis
    by (auto simp: UnmarshalText_def Let_def)
qed

lemma UnmarshalText_cases:
  "UnmarshalText u text = (u, Some (ErrIncorrectLength (length text) text)) \<or>
   UnmarshalText u text = (u, Some (ErrIncorrectFormat text)) \<or>
   UnmarshalText u text = (u, Some (ErrIncorrectFormat (take 9 text))) \<or>
   UnmarshalText u text = decodeText u (payload text)"
  by (simp add: UnmarshalText_unfold payload_def)

lemma decodeCanonical_loop_step:
  "decodeCanonical_loop u t i (x # xs) =
     (if hexpair_ok t x then decodeCanonical_loop (u[i := hexpair_value t x]) t (Suc i) xs
      else (u, Some ErrInvalidFormat))"
  by (simp add: hexpair_ok_def hexpair_value_def split: prod.splits)

lemma decodeCanonical_loop_result:
  "i + length xs \<le> length u \<Longrightarrow>
   decodeCanonical_loop u t i xs =
     (take i u @ map (hexpair_value t) (take (valid_pairs t xs) xs)
        @ drop (i + valid_pairs t xs) u,
      if valid_pairs t xs = length xs then None else Some ErrInvalidFormat)"
proof (induction xs arbitrary: u i)
  case Nil
  then show ?case
    by (simp add: valid_pairs_def)
next
  case (Cons x xs)
  show ?case
  proof (cases "hexpair_ok t x")
    case False
    then show ?thesis
      by (simp add: decodeCanonical_loop_step valid_pairs_def del: decodeCanonical_loop.simps)
  next
    case True
    let ?u = "u[i := hexpair_value t x]"
    from Cons.prems have i: "i < length u" and rest: "Suc i + length xs \<le> length ?u"
      by simp_all
    have front: "take (Suc i) ?u = take i u @ [hexpair_value t x]"
      using i by (simp add: take_Suc_conv_app_nth)
    have behind: "drop (Suc i + k) ?u = drop (Suc i + k) u" for k
      by simp
    show ?thesis
      using True Cons.IH [OF rest]
      by (simp add: decodeCanonical_loop_step valid_pairs_def front behind
          del: decodeCanonical_loop.simps)
  qed
qed

lemma decodeHashLike_loop_eq:
  "decodeHashLike_loop u t (2 * j) = decodeCanonical_loop u t j (map (\<lambda>k. 2 * k) [j..<16])"
proof (induction "16 - j" arbitrary: j u)
  case 0
  then have "\<not> 2 * j < 32" "[j..<16] = []"
    by simp_all
  then show ?case
    by (subst decodeHashLike_loop.simps) simp
next
  case (Suc n)
  then have j: "2 * j < 32" "[j..<16] = j # [Suc j..<16]" and n: "n = 16 - Suc j"
    by (simp_all add: upt_conv_Cons)
  show ?case
    using Suc.hyps(1) [OF n]
    by (subst decodeHashLike_loop.simps)
      (simp add: j hexpair_ok_def hexpair_value_def split: prod.splits)
qed

lemma hashlike_offsets_upt: "map (\<lambda>k. 2 * k) [0..<16] = hashlike_offsets"
  by (simp add: hashlike_offsets_def upt_rec)

lemma decodeHashLike_eq: "decodeHashLike u t = decodeCanonical_loop u t 0 hashlike_offsets"
  using decodeHashLike_loop_eq [of u t 0] by (simp add: decodeHashLike_def hashlike_offsets_upt)

lemma length_pair_offsets: "length (pair_offsets t) = Size"
  by (simp add: pair_offsets_def canonical_offsets_def hashlike_offsets_def Size_def)

lemma valid_pairs_le: "valid_pairs t xs \<le> length xs"
  by (simp add: valid_pairs_def length_takeWhile_le)

lemma decode_pairs_result:
  assumes "length u = Size" and "length xs = Size"
  shows "decodeCanonical_loop u t 0 xs =
           (map (hexpair_value t) (take (valid_pairs t xs) xs) @ drop (valid_pairs t xs) u,
            if valid_pairs t xs = Size then None else Some ErrInvalidFormat)"
  using decodeCanonical_loop_result [of 0 xs u t] assms by simp

lemma decodeText_cases:
  assumes "length u = Size"
  shows "decodeText u t = (u, Some (ErrIncorrectFormat t)) \<or>
         decodeText u t =
           (map (hexpair_value t) (take (valid_pairs t (pair_offsets t)) (pair_offsets t))
              @ drop (valid_pairs t (pair_offsets t)) u,
            if valid_pairs t (pair_offsets t) = Size then None else Some ErrInvalidFormat)"
proof (cases "length t = 36")
  case True
  then show ?thesis
    using decode_pairs_result [OF assms, of canonical_offsets t]
    by (simp add: decodeText_def decodeCanonical_def pair_offsets_def canonical_offsets_def
        Size_def)
next
  case False
  then show ?thesis
    using decode_pairs_result [OF assms, of hashlike_offsets t]
    by (simp add: decodeText_def decodeHashLike_eq pair_offsets_def hashlike_offsets_def
        Size_def)
qed

section \<open>The text encoder, byte by byte\<close>

lemma hextable_digits:
  "list_all (\<lambda>k. fromHexChar (hextable ! k) = (of_nat k, True))
     [0, 1, 2, 3, 4, 5, 6, 7, 8, 9, 10, 11, 12, 13, 14, 15]"
  by (simp add: hextable_def bytes_of_def fromHexChar_def)

lemma fromHexChar_hextable:
  assumes "k < 16"
  shows "fromHexChar (hextable ! k) = (of_nat k, True)"
proof -
  from assms have "k \<in> set [0, 1, 2, 3, 4, 5, 6, 7, 8, 9, 10, 11, 12, 13, 14, 15]"
    by (simp, arith)
  with hextable_digits show ?thesis
    unfolding list_all_iff by blast
qed

lemma unat_nibbles: "unat (drop_bit 4 b) < 16" "unat (b AND 0x0f) < 16" for b :: u8
  using unat_byte_less [of b] by (simp_all add: unat_high_nibble unat_low_nibble)

lemma fromHexChar_high: "fromHexChar (hextable ! unat (drop_bit 4 b)) = (drop_bit 4 b, True)"
  using fromHexChar_hextable [OF unat_nibbles(1), of b] by simp

lemma fromHexChar_low: "fromHexChar (hextable ! unat (b AND 0x0f)) = (b AND 0x0f, True)"
  using fromHexChar_hextable [OF unat_nibbles(2), of b] by simp

lemma lower_hex_digit_nth: "k < 16 \<Longrightarrow> lower_hex_digit (hextable ! k)"
  unfolding lower_hex_digit_def hextable_def by (rule nth_mem) (simp add: bytes_of_def)

lemma lower_hex_digit_hextable:
  "lower_hex_digit (hextable ! unat (drop_bit 4 b))"
  "lower_hex_digit (hextable ! unat (b AND 0x0f))" for b :: u8
  by (simp_all add: lower_hex_digit_nth unat_nibbles)

lemma String_elements:
  "String [a0, a1, a2, a3, a4, a5, a6, a7, a8, a9, a10, a11, a12, a13, a14, a15] =
     [hextable ! unat (drop_bit 4 a0), hextable ! unat (a0 AND 0x0f),
      hextable ! unat (drop_bit 4 a1), hextable ! unat (a1 AND 0x0f),
      hextable ! unat (drop_bit 4 a2), hextable ! unat (a2 AND 0x0f),
      hextable ! unat (drop_bit 4 a3), hextable ! unat (a3 AND 0x0f),
      byte CHR ''-'',
      hextable ! unat (drop_bit 4 a4), hextable ! unat (a4 AND 0x0f),
      hextable ! unat (drop_bit 4 a5), hextable ! unat (a5 AND 0x0f),
      byte CHR ''-'',
      hextable ! unat (drop_bit 4 a6), hextable ! unat (a6 AND 0x0f),
      hextable ! unat (drop_bit 4 a7), hextable ! unat (a7 AND 0x0f),
      byte CHR ''-'',
      hextable ! unat (drop_bit 4 a8), hextable ! unat (a8 AND 0x0f),
      hextable ! unat (drop_bit 4 a9), hextable ! unat (a9 AND 0x0f),
      byte CHR ''-'',
      hextable ! unat (drop_bit 4 a10), hextable ! unat (a10 AND 0x0f),
      hextable ! unat (drop_bit 4 a11), hextable ! unat (a11 AND 0x0f),
      hextable ! unat (drop_bit 4 a12), hextable ! unat (a12 AND 0x0f),
      hextable ! unat (drop_bit 4 a13), hextable ! unat (a13 AND 0x0f),
      hextable ! unat (drop_bit 4 a14), hextable ! unat (a14 AND 0x0f),
      hextable ! unat (drop_bit 4 a15), hextable ! unat (a15 AND 0x0f)]"
  by (simp add: String_def encodeHex_def subslice_def buffer36)


lemma index_below_36:
  "i < 36 \<Longrightarrow>
   i \<in> set [0, 1, 2, 3, 4, 5, 6, 7, 8, 9, 10, 11, 12, 13, 14, 15, 16, 17, 18, 19, 20, 21, 22,
             23, 24, 25, 26, 27, 28, 29, 30, 31, 32, 33, 34, 35]" for i :: nat
  by (simp, arith)

section \<open>Runs on concrete inputs\<close>

lemmas text_eval = FromString_def UnmarshalText_def decodeText_def decodeCanonical_def
  canonical_offsets_def decodeHashLike_def decodeHashLike_loop.simps subslice_def bytes_of_def
  fromHexChar_def Nil_UUID_bytes

lemma dns_run:
  "FromString (bytes_of ''6ba7b810-9dad-11d1-80b4-00c04fd430c8'') = (NamespaceDNS_bytes, None)"
  by (simp add: text_eval NamespaceDNS_bytes_def)

lemma bad_digit_run:
  "FromString (bytes_of ''6ba7b810-9dad-11d1-80b4-00c04fd430cg'') =
     ([0x6b, 0xa7, 0xb8, 0x10, 0x9d, 0xad, 0x11, 0xd1,
       0x80, 0xb4, 0x00, 0xc0, 0x4f, 0xd4, 0x30, 0x00], Some ErrInvalidFormat)"
  by (simp add: text_eval)

lemma short_bytes_run: "FromBytes [1, 2, 3] = (Nil_UUID, Some (ErrBinaryLength 3))"
  by (simp add: FromBytes_def UnmarshalBinary_def Size_def)

lemma full_bytes_run: "FromBytes NamespaceDNS_bytes = (NamespaceDNS_bytes, None)"
proof -
  have "length NamespaceDNS_bytes = Size"
    by (simp add: NamespaceDNS_bytes_def Size_def)
  moreover have "length Nil_UUID = Size"
    by (simp add: Nil_UUID_def)
  ultimately show ?thesis
    by (simp add: FromBytes_def UnmarshalBinary_def copy_def)
qed

lemma bracket_run:
  "UnmarshalText Nil_UUID (bytes_of ''[6ba7b8109dad11d180b400c04fd430c8]'') =
     (Nil_UUID, Some (ErrIncorrectFormat (bytes_of ''[6ba7b8109dad11d180b400c04fd430c8]'')))"
  by (simp add: UnmarshalText_def bytes_of_def)

lemma length35_run:
  "UnmarshalText Nil_UUID (bytes_of ''6ba7b810-9dad-11d1-80b4-00c04fd430c'') =
     (Nil_UUID, Some (ErrIncorrectLength 35 (bytes_of ''6ba7b810-9dad-11d1-80b4-00c04fd430c'')))"
  by (simp add: UnmarshalText_def bytes_of_def)

lemma bad_urn_run:
  "UnmarshalText Nil_UUID (bytes_of ''urn:uuix:6ba7b810-9dad-11d1-80b4-00c04fd430c8'') =
     (Nil_UUID, Some (ErrIncorrectFormat (bytes_of ''urn:uuix:'')))"
  by (simp add: UnmarshalText_def bytes_of_def)

lemma shifted_hyphen_run:
  "UnmarshalText Nil_UUID (bytes_of ''6ba7b8109-dad-11d1-80b4-00c04fd430c8'') =
     (Nil_UUID, Some (ErrIncorrectFormat (bytes_of ''6ba7b8109-dad-11d1-80b4-00c04fd430c8'')))"
  by (simp add: UnmarshalText_def decodeText_def decodeCanonical_def bytes_of_def)

lemma braced_hash_run:
  "FromString (bytes_of ''{6ba7b8109dad11d180b400c04fd430c8}'') = (NamespaceDNS_bytes, None)"
  by (simp add: text_eval NamespaceDNS_bytes_def)

lemma braced_run:
  "FromString (bytes_of ''{6ba7b810-9dad-11d1-80b4-00c04fd430c8}'') = (NamespaceDNS_bytes, None)"
  by (simp add: text_eval NamespaceDNS_bytes_def)

lemma hash_run:
  "FromString (bytes_of ''6ba7b8109dad11d180b400c04fd430c8'') = (NamespaceDNS_bytes, None)"
  by (simp add: text_eval NamespaceDNS_bytes_def)

lemma urn_run:
  "FromString (bytes_of ''urn:uuid:6ba7b810-9dad-11d1-80b4-00c04fd430c8'') =
     (NamespaceDNS_bytes, None)"
  by (simp add: text_eval NamespaceDNS_bytes_def)

lemma bad_digit_pairs:
  "valid_pairs (payload (bytes_of ''6ba7b810-9dad-11d1-80b4-00c04fd430cg''))
     (pair_offsets (payload (bytes_of ''6ba7b810-9dad-11d1-80b4-00c04fd430cg''))) = 15"
  by (simp add: valid_pairs_def payload_def pair_offsets_def canonical_offsets_def
      hexpair_ok_def bytes_of_def fromHexChar_def)

lemma String_dns_run:
  "String NamespaceDNS_bytes = bytes_of ''6ba7b810-9dad-11d1-80b4-00c04fd430c8''"
  by (simp add: String_def encodeHex_def subslice_def hextable_def bytes_of_def
      NamespaceDNS_bytes_def buffer36)

lemma String_Nil_run:
  "String Nil_UUID = bytes_of ''00000000-0000-0000-0000-000000000000''"
  by (simp add: String_def encodeHex_def subslice_def hextable_def bytes_of_def
      Nil_UUID_bytes buffer36)

lemma V1_dns_run: "TimestampFromV1 NamespaceDNS_bytes = (0x1d19dad6ba7b810, None)"
  by (simp add: TimestampFromV1_def Version_def BigEndian_Uint32_def BigEndian_Uint16_def
      subslice_def NamespaceDNS_bytes_def)

section \<open>Version and variant bits\<close>

text \<open>
  Claim C10. For every UUID \<open>u\<close> and every byte \<open>v\<close>, also beyond 15, \<open>SetVersion\<close>
  replaces byte 6 with \<open>(old byte 6 & 0x0f) | ((v << 4) mod 256)\<close>: afterwards \<open>Version\<close>
  returns \<open>v mod 16\<close>, the low nibble of byte 6 is the old one, and the other 15 bytes are
  unchanged.
\<close>

theorem SetVersion_any_byte:
  assumes "length u = Size"
  shows "SetVersion u v ! 6 = (u ! 6 AND 0x0f) OR push_bit 4 v \<and>
         unat (SetVersion u v ! 6) = unat (u ! 6) mod 16 + (unat v * 16) mod 256 \<and>
         unat (Version (SetVersion u v)) = unat v mod 16 \<and>
         SetVersion u v ! 6 AND 0x0f = u ! 6 AND 0x0f \<and>
         (\<forall>i<Size. i \<noteq> 6 \<longrightarrow> SetVersion u v ! i = u ! i) \<and>
         length (SetVersion u v) = Size"
proof -
  from assms have six: "6 < length u"
    by (simp add: Size_def)
  then have byte6: "SetVersion u v ! 6 = (u ! 6 AND 0x0f) OR push_bit 4 v"
    by (simp add: SetVersion_def)
  have "unat (Version (SetVersion u v)) = unat v mod 16"
    by (simp add: Version_def byte6 drop_push_nibble unat_low_nibble)
  moreover have "\<forall>i<Size. i \<noteq> 6 \<longrightarrow> SetVersion u v ! i = u ! i"
    by (simp add: SetVersion_def)
  ultimately show ?thesis
    using assms byte6 by (simp add: unat_version_byte low_nibble_kept SetVersion_def)
qed

theorem SetVersion_any_byte_witness:
  "length NamespaceDNS_bytes = Size \<and>
   SetVersion NamespaceDNS_bytes 0xf7 =
     [0x6b, 0xa7, 0xb8, 0x10, 0x9d, 0xad, 0x71, 0xd1,
      0x80, 0xb4, 0x00, 0xc0, 0x4f, 0xd4, 0x30, 0xc8] \<and>
   Version (SetVersion NamespaceDNS_bytes 0xf7) = 7"
  using SetVersion_any_byte [of NamespaceDNS_bytes "0xf7"]
  by (simp add: NamespaceDNS_bytes_def Size_def SetVersion_def Version_def)

text \<open>
  Claim C6. For every UUID \<open>u\<close>, every version \<open>v\<close> in 0..15 and every variant tag \<open>x\<close>,
  \<open>SetVersion v\<close> and \<open>SetVariant x\<close> give the same 16 bytes in either order, and
  afterwards \<open>Version\<close> returns \<open>v\<close> and \<open>Variant\<close> returns \<open>x\<close> when \<open>x\<close> is NCS, RFC4122
  or Microsoft, and Future otherwise.
\<close>

theorem version_variant_independent:
  assumes "length u = Size" and "v < 16"
  shows "SetVariant (SetVersion u v) x = SetVersion (SetVariant u x) v \<and>
         Version (SetVariant (SetVersion u v) x) = v \<and>
         Variant (SetVariant (SetVersion u v) x) =
           (if x = VariantNCS \<or> x = VariantRFC4122 \<or> x = VariantMicrosoft then x
            else VariantFuture)"
proof -
  from assms have len: "6 < length u" "8 < length u"
    by (simp_all add: Size_def)
  have commute: "SetVariant (SetVersion u v) x = SetVersion (SetVariant u x) v"
    by (simp add: SetVariant_def SetVersion_def list_update_swap)
  have "Version (SetVersion (SetVariant u x) v) = v"
    using len \<open>v < 16\<close>
    by (simp add: Version_def SetVersion_def SetVariant_def drop_push_nibble small_version)
  moreover have "Variant (SetVariant (SetVersion u v) x) =
           (if x = VariantNCS \<or> x = VariantRFC4122 \<or> x = VariantMicrosoft then x
            else VariantFuture)"
    using len
    by (simp add: Variant_def SetVariant_def SetVersion_def VariantNCS_def VariantRFC4122_def
        VariantMicrosoft_def VariantFuture_def)
  ultimately show ?thesis
    using commute by simp
qed

theorem version_variant_independent_witness:
  "length NamespaceDNS_bytes = Size \<and> (4 :: u8) < 16 \<and>
   SetVariant (SetVersion NamespaceDNS_bytes 4) 9 =
     SetVersion (SetVariant NamespaceDNS_bytes 9) 4 \<and>
   Version (SetVariant (SetVersion NamespaceDNS_bytes 4) 9) = 4 \<and>
   Variant (SetVariant (SetVersion NamespaceDNS_bytes 4) 9) = VariantFuture"
  using version_variant_independent [of NamespaceDNS_bytes 4 9]
  by (simp add: NamespaceDNS_bytes_def Size_def VariantNCS_def VariantRFC4122_def
        VariantMicrosoft_def VariantFuture_def SetVariant_def SetVersion_def Version_def
        Variant_def)

section \<open>Text decoding\<close>

text \<open>
  Claim C4. \<open>UnmarshalText\<close> dispatches on the length of its input alone: 32 is decoded
  as hash-like and 36 as canonical; 34 and 38 need a leading \<open>{\<close> and a trailing \<open>}\<close>,
  fail with the structural error otherwise, and pass the text between the braces on (32
  characters to the hash-like decoder, 36 to the canonical one); 41 and 45 need the
  9-character prefix \<open>urn:uuid:\<close>, fail with the structural error otherwise, and pass the
  rest on in the same way; every other length fails at once with the length-mismatch
  error, which holds the offending length and the original input.
\<close>

theorem UnmarshalText_dispatch:
  "(length text = 32 \<longrightarrow> UnmarshalText u text = decodeHashLike u text) \<and>
   (length text = 36 \<longrightarrow> UnmarshalText u text = decodeCanonical u text) \<and>
   ((length text = 34 \<or> length text = 38) \<and>
    (hd text \<noteq> byte CHR ''{'' \<or> last text \<noteq> byte CHR ''}'') \<longrightarrow>
      UnmarshalText u text = (u, Some (ErrIncorrectFormat text))) \<and>
   (length text = 34 \<and> hd text = byte CHR ''{'' \<and> last text = byte CHR ''}'' \<longrightarrow>
      UnmarshalText u text = decodeHashLike u (butlast (tl text))) \<and>
   (length text = 38 \<and> hd text = byte CHR ''{'' \<and> last text = byte CHR ''}'' \<longrightarrow>
      UnmarshalText u text = decodeCanonical u (butlast (tl text))) \<and>
   ((length text = 41 \<or> length text = 45) \<and> take 9 text \<noteq> bytes_of ''urn:uuid:'' \<longrightarrow>
      UnmarshalText u text = (u, Some (ErrIncorrectFormat (take 9 text)))) \<and>
   (length text = 41 \<and> take 9 text = bytes_of ''urn:uuid:'' \<longrightarrow>
      UnmarshalText u text = decodeHashLike u (drop 9 text)) \<and>
   (length text = 45 \<and> take 9 text = bytes_of ''urn:uuid:'' \<longrightarrow>
      UnmarshalText u text = decodeCanonical u (drop 9 text)) \<and>
   (length text \<notin> {32, 36, 34, 38, 41, 45} \<longrightarrow>
      UnmarshalText u text = (u, Some (ErrIncorrectLength (length text) text)) \<and>
      error_length (ErrIncorrectLength (length text) text) = Some (length text) \<and>
      error_input (ErrIncorrectLength (length text) text) = Some text)"
  by (simp add: UnmarshalText_unfold decodeText_def)

theorem UnmarshalText_dispatch_witness:
  "length (bytes_of ''[6ba7b8109dad11d180b400c04fd430c8]'') = 34 \<and>
   hd (bytes_of ''[6ba7b8109dad11d180b400c04fd430c8]'') \<noteq> byte CHR ''{'' \<and>
   UnmarshalText Nil_UUID (bytes_of ''[6ba7b8109dad11d180b400c04fd430c8]'') =
     (Nil_UUID, Some (ErrIncorrectFormat (bytes_of ''[6ba7b8109dad11d180b400c04fd430c8]''))) \<and>
   length (bytes_of ''6ba7b810-9dad-11d1-80b4-00c04fd430c'') = 35 \<and>
   UnmarshalText Nil_UUID (bytes_of ''6ba7b810-9dad-11d1-80b4-00c04fd430c'') =
     (Nil_UUID,
      Some (ErrIncorrectLength 35 (bytes_of ''6ba7b810-9dad-11d1-80b4-00c04fd430c''))) \<and>
   length (bytes_of ''urn:uuix:6ba7b810-9dad-11d1-80b4-00c04fd430c8'') = 45 \<and>
   UnmarshalText Nil_UUID (bytes_of ''urn:uuix:6ba7b810-9dad-11d1-80b4-00c04fd430c8'') =
     (Nil_UUID, Some (ErrIncorrectFormat (bytes_of ''urn:uuix:''))) \<and>
   length (bytes_of ''{6ba7b8109dad11d180b400c04fd430c8}'') = 34 \<and>
   UnmarshalText Nil_UUID (bytes_of ''{6ba7b8109dad11d180b400c04fd430c8}'') =
     decodeHashLike Nil_UUID (bytes_of ''6ba7b8109dad11d180b400c04fd430c8'')"
proof -
  have "UnmarshalText Nil_UUID (bytes_of ''{6ba7b8109dad11d180b400c04fd430c8}'') =
     decodeHashLike Nil_UUID (bytes_of ''6ba7b8109dad11d180b400c04fd430c8'')"
    using UnmarshalText_dispatch [of "bytes_of ''{6ba7b8109dad11d180b400c04fd430c8}''" Nil_UUID]
    by (simp add: bytes_of_def)
  moreover have "length (bytes_of ''6ba7b810-9dad-11d1-80b4-00c04fd430c'') = 35"
    by (simp add: bytes_of_def)
  then have "UnmarshalText Nil_UUID (bytes_of ''6ba7b810-9dad-11d1-80b4-00c04fd430c'') =
     (Nil_UUID,
      Some (ErrIncorrectLength 35 (bytes_of ''6ba7b810-9dad-11d1-80b4-00c04fd430c'')))"
    using UnmarshalText_dispatch [of "bytes_of ''6ba7b810-9dad-11d1-80b4-00c04fd430c''" Nil_UUID]
    by simp
  ultimately show ?thesis
    by (simp add: bracket_run bad_urn_run) (simp add: bytes_of_def)
qed

text \<open>
  Claim C5. The five spellings of \<open>6ba7b810-9dad-11d1-80b4-00c04fd430c8\<close>, canonical,
  braced, hash-like, braced hash-like and URN-prefixed, all decode without error to the
  same 16 bytes.
\<close>

theorem format_equivalence:
  "FromString (bytes_of ''6ba7b810-9dad-11d1-80b4-00c04fd430c8'') = (NamespaceDNS_bytes, None) \<and>
   FromString (bytes_of ''{6ba7b810-9dad-11d1-80b4-00c04fd430c8}'') = (NamespaceDNS_bytes, None) \<and>
   FromString (bytes_of ''6ba7b8109dad11d180b400c04fd430c8'') = (NamespaceDNS_bytes, None) \<and>
   FromString (bytes_of ''{6ba7b8109dad11d180b400c04fd430c8}'') = (NamespaceDNS_bytes, None) \<and>
   FromString (bytes_of ''urn:uuid:6ba7b810-9dad-11d1-80b4-00c04fd430c8'') =
     (NamespaceDNS_bytes, None) \<and>
   NamespaceDNS_bytes =
     [0x6b, 0xa7, 0xb8, 0x10, 0x9d, 0xad, 0x11, 0xd1,
      0x80, 0xb4, 0x00, 0xc0, 0x4f, 0xd4, 0x30, 0xc8]"
  by (simp only: dns_run braced_run hash_run braced_hash_run urn_run NamespaceDNS_bytes_def)

theorem format_equivalence_witness:
  "fst (FromString (bytes_of ''{6ba7b8109dad11d180b400c04fd430c8}'')) =
     fst (FromString (bytes_of ''urn:uuid:6ba7b810-9dad-11d1-80b4-00c04fd430c8'')) \<and>
   snd (FromString (bytes_of ''{6ba7b8109dad11d180b400c04fd430c8}'')) = None \<and>
   snd (FromString (bytes_of ''urn:uuid:6ba7b810-9dad-11d1-80b4-00c04fd430c8'')) = None"
  using format_equivalence by simp


text \<open>
  Claim C2. For every 16-byte UUID \<open>u\<close> the text encoder (\<open>String\<close>, \<open>MarshalText\<close>)
  produces exactly 36 characters, lowercase hex digits with hyphens at offsets 8, 13, 18
  and 23, and \<open>UnmarshalText\<close> (into any receiver) and \<open>FromString\<close> decode that text
  without error to \<open>u\<close> again.
\<close>

theorem text_round_trip:
  assumes "length u = Size" and "length w = Size"
  shows "length (String u) = 36 \<and>
         (\<forall>i<36. if i \<in> {8, 13, 18, 23} then String u ! i = byte CHR ''-''
                  else lower_hex_digit (String u ! i)) \<and>
         MarshalText u = (String u, None) \<and>
         UnmarshalText w (String u) = (u, None) \<and>
         FromString (String u) = (u, None)"
proof -
  from assms(1) obtain a0 a1 a2 a3 a4 a5 a6 a7 a8 a9 a10 a11 a12 a13 a14 a15
    where u: "u = [a0, a1, a2, a3, a4, a5, a6, a7, a8, a9, a10, a11, a12, a13, a14, a15]"
    by (rule UUID_elements)
  note s = String_elements [of a0 a1 a2 a3 a4 a5 a6 a7 a8 a9 a10 a11 a12 a13 a14 a15,
      folded u]
  have len: "length (String u) = 36"
    by (simp add: s)
  have shape: "list_all (\<lambda>i. if i \<in> {8, 13, 18, 23} then String u ! i = byte CHR ''-''
                  else lower_hex_digit (String u ! i))
      [0, 1, 2, 3, 4, 5, 6, 7, 8, 9, 10, 11, 12, 13, 14, 15, 16, 17, 18, 19, 20, 21, 22,
       23, 24, 25, 26, 27, 28, 29, 30, 31, 32, 33, 34, 35]"
    by (simp add: s lower_hex_digit_hextable)
  have format: "\<forall>i<36. if i \<in> {8, 13, 18, 23} then String u ! i = byte CHR ''-''
                  else lower_hex_digit (String u ! i)"
    using shape index_below_36 unfolding list_all_iff by blast
  have hyphens: "String u ! 8 = byte CHR ''-''" "String u ! 13 = byte CHR ''-''"
    "String u ! 18 = byte CHR ''-''" "String u ! 23 = byte CHR ''-''"
    by (simp_all add: s)
  have "list_all (hexpair_ok (String u)) canonical_offsets"
    by (simp add: s canonical_offsets_def hexpair_ok_def fromHexChar_high fromHexChar_low)
  then have all: "valid_pairs (String u) canonical_offsets = Size"
    by (simp add: valid_pairs_def list_all_iff canonical_offsets_def Size_def)
  have vals: "map (hexpair_value (String u)) canonical_offsets = u"
    by (simp add: s canonical_offsets_def hexpair_value_def fromHexChar_high fromHexChar_low
        nibbles_join) (simp add: u)
  have offsets: "length canonical_offsets = Size"
    by (simp add: canonical_offsets_def Size_def)
  have loop: "decodeCanonical_loop w (String u) 0 canonical_offsets = (u, None)"
    if "length w = Size" for w
    using decode_pairs_result [OF that offsets, of "String u"] that
    by (simp add: all vals offsets [unfolded Size_def] Size_def)
  have decode: "UnmarshalText w (String u) = (u, None)" if "length w = Size" for w
    by (simp add: UnmarshalText_unfold len decodeText_def decodeCanonical_def hyphens
        loop [OF that])
  have "length Nil_UUID = Size"
    by (simp add: Nil_UUID_def)
  with decode assms(2) len format show ?thesis
    by (simp add: MarshalText_def String_def FromString_def)
qed


theorem text_round_trip_witness:
  "length NamespaceDNS_bytes = Size \<and> length Nil_UUID = Size \<and>
   String NamespaceDNS_bytes = bytes_of ''6ba7b810-9dad-11d1-80b4-00c04fd430c8'' \<and>
   UnmarshalText Nil_UUID (bytes_of ''6ba7b810-9dad-11d1-80b4-00c04fd430c8'') =
     (NamespaceDNS_bytes, None) \<and>
   MarshalText NamespaceDNS_bytes = (bytes_of ''6ba7b810-9dad-11d1-80b4-00c04fd430c8'', None)"
proof -
  have len: "length NamespaceDNS_bytes = Size" "length Nil_UUID = Size"
    by (simp_all add: NamespaceDNS_bytes_def Nil_UUID_def Size_def)
  from text_round_trip [OF len] len show ?thesis
    by (simp add: String_dns_run)
qed

text \<open>
  Claim C1, as the source has it. When \<open>UnmarshalText\<close> fails with any error other than
  the invalid-format error of a bad hex digit (wrong length, bad brace or URN prefix,
  misplaced hyphen), the receiver is untouched. When it fails on a hex digit, the pairs
  before the first bad one have been decoded into the receiver: with \<open>k < 16\<close> the number
  of good leading pairs, bytes \<open>0..k-1\<close> hold the decoded values and bytes \<open>k..15\<close> are
  the old ones.
\<close>

theorem decode_failure_effect:
  assumes "length u = Size" and "UnmarshalText u text = (u', Some e)"
  shows "(e \<noteq> ErrInvalidFormat \<longrightarrow> u' = u) \<and>
         (e = ErrInvalidFormat \<longrightarrow>
            valid_pairs (payload text) (pair_offsets (payload text)) < Size \<and>
            u' = map (hexpair_value (payload text))
                   (take (valid_pairs (payload text) (pair_offsets (payload text)))
                      (pair_offsets (payload text)))
                 @ drop (valid_pairs (payload text) (pair_offsets (payload text))) u)"
proof -
  let ?t = "payload text"
  let ?k = "valid_pairs ?t (pair_offsets ?t)"
  have k: "?k \<le> Size"
    using valid_pairs_le [of "?t" "pair_offsets ?t"] by (simp add: length_pair_offsets)
  from UnmarshalText_cases [of u "text"] decodeText_cases [OF assms(1), of "?t"] assms(2) k
  show ?thesis
    by (auto split: if_splits)
qed

theorem decode_failure_effect_witness:
  "length Nil_UUID = Size \<and>
   UnmarshalText Nil_UUID (bytes_of ''6ba7b810-9dad-11d1-80b4-00c04fd430cg'') =
     ([0x6b, 0xa7, 0xb8, 0x10, 0x9d, 0xad, 0x11, 0xd1,
       0x80, 0xb4, 0x00, 0xc0, 0x4f, 0xd4, 0x30, 0x00], Some ErrInvalidFormat) \<and>
   valid_pairs (payload (bytes_of ''6ba7b810-9dad-11d1-80b4-00c04fd430cg''))
     (pair_offsets (payload (bytes_of ''6ba7b810-9dad-11d1-80b4-00c04fd430cg''))) = 15 \<and>
   [0x6b, 0xa7, 0xb8, 0x10, 0x9d, 0xad, 0x11, 0xd1,
    0x80, 0xb4, 0x00, 0xc0, 0x4f, 0xd4, 0x30, 0x00] =
     map (hexpair_value (payload (bytes_of ''6ba7b810-9dad-11d1-80b4-00c04fd430cg'')))
       (take 15 (pair_offsets (payload (bytes_of ''6ba7b810-9dad-11d1-80b4-00c04fd430cg''))))
     @ drop 15 Nil_UUID \<and>
   UnmarshalText Nil_UUID (bytes_of ''6ba7b8109-dad-11d1-80b4-00c04fd430c8'') =
     (Nil_UUID, Some (ErrIncorrectFormat (bytes_of ''6ba7b8109-dad-11d1-80b4-00c04fd430c8''))) \<and>
   UnmarshalText Nil_UUID (bytes_of ''6ba7b810-9dad-11d1-80b4-00c04fd430c'') =
     (Nil_UUID,
      Some (ErrIncorrectLength 35 (bytes_of ''6ba7b810-9dad-11d1-80b4-00c04fd430c'')))"
proof -
  have len: "length Nil_UUID = Size"
    by (simp add: Nil_UUID_def)
  have run: "UnmarshalText Nil_UUID (bytes_of ''6ba7b810-9dad-11d1-80b4-00c04fd430cg'') =
     ([0x6b, 0xa7, 0xb8, 0x10, 0x9d, 0xad, 0x11, 0xd1,
       0x80, 0xb4, 0x00, 0xc0, 0x4f, 0xd4, 0x30, 0x00], Some ErrInvalidFormat)"
    using bad_digit_run by (simp add: FromString_def)
  from decode_failure_effect [OF len run] decode_failure_effect [OF len shifted_hyphen_run]
    decode_failure_effect [OF len length35_run] len run
  show ?thesis
    by (simp add: bad_digit_pairs shifted_hyphen_run length35_run)
qed

text \<open>
  Claim C1, as stated, fails: decoding a canonical text whose last character is \<open>g\<close> into
  the nil UUID reports the invalid-format error, and by then 15 of the 16 bytes of the
  receiver have been overwritten.
\<close>

theorem decode_failure_writes:
  "UnmarshalText Nil_UUID (bytes_of ''6ba7b810-9dad-11d1-80b4-00c04fd430cg'') =
     ([0x6b, 0xa7, 0xb8, 0x10, 0x9d, 0xad, 0x11, 0xd1,
       0x80, 0xb4, 0x00, 0xc0, 0x4f, 0xd4, 0x30, 0x00], Some ErrInvalidFormat) \<and>
   [0x6b, 0xa7, 0xb8, 0x10, 0x9d, 0xad, 0x11, 0xd1,
    0x80, 0xb4, 0x00, 0xc0, 0x4f, 0xd4, 0x30, 0x00] \<noteq> Nil_UUID"
  using bad_digit_run by (simp add: FromString_def Nil_UUID_bytes)

section \<open>Binary codec and the wrappers that swallow errors\<close>

text \<open>
  Claim C3, as the source has it. \<open>UnmarshalBinary\<close> and \<open>FromBytes\<close> succeed exactly
  when the input has 16 bytes, and then the result is the input, byte for byte, so that
  decoding the output of \<open>MarshalBinary\<close> gives the UUID back. On any other length they
  fail with the length-mismatch error, whose message holds the offending length; the
  receiver is left as it was.
\<close>

theorem binary_decode:
  assumes "length u = Size"
  shows "(snd (UnmarshalBinary u data) = None \<longleftrightarrow> length data = Size) \<and>
         (length data = Size \<longrightarrow> UnmarshalBinary u data = (data, None)) \<and>
         (length data \<noteq> Size \<longrightarrow>
            UnmarshalBinary u data = (u, Some (ErrBinaryLength (length data))) \<and>
            error_length (ErrBinaryLength (length data)) = Some (length data)) \<and>
         (snd (FromBytes data) = None \<longleftrightarrow> length data = Size) \<and>
         (length data = Size \<longrightarrow> FromBytes data = (data, None)) \<and>
         (length data \<noteq> Size \<longrightarrow>
            FromBytes data = (Nil_UUID, Some (ErrBinaryLength (length data)))) \<and>
         MarshalBinary u = (u, None) \<and>
         FromBytes (fst (MarshalBinary u)) = (u, None)"
  using assms
  by (simp add: UnmarshalBinary_def MarshalBinary_def Bytes_def copy_def FromBytes_def
      Nil_UUID_def)

theorem binary_decode_witness:
  "length NamespaceDNS_bytes = Size \<and>
   length [1, 2, 3 :: u8] \<noteq> Size \<and>
   UnmarshalBinary NamespaceDNS_bytes [1, 2, 3] =
     (NamespaceDNS_bytes, Some (ErrBinaryLength (length [1, 2, 3 :: u8]))) \<and>
   FromBytes [1, 2, 3] = (Nil_UUID, Some (ErrBinaryLength (length [1, 2, 3 :: u8]))) \<and>
   FromBytes (fst (MarshalBinary NamespaceDNS_bytes)) = (NamespaceDNS_bytes, None)"
proof -
  have len: "length NamespaceDNS_bytes = Size"
    by (simp add: NamespaceDNS_bytes_def Size_def)
  have short: "length [1, 2, 3 :: u8] \<noteq> Size"
    by (simp add: Size_def)
  from binary_decode [OF len, of "[1, 2, 3]"] len short show ?thesis
    by (simp add: full_bytes_run)
qed

text \<open>
  Claim C3, as stated, fails in its last part: the message of the binary length-mismatch
  error is built from the length alone. A 15-byte input is rejected with an error that
  does not hold the input, and another 15-byte input gives the very same result.
\<close>

theorem binary_error_omits_input:
  "length [1, 2, 3, 4, 5, 6, 7, 8, 9, 10, 11, 12, 13, 14, 15 :: u8] \<noteq> Size \<and>
   UnmarshalBinary Nil_UUID [1, 2, 3, 4, 5, 6, 7, 8, 9, 10, 11, 12, 13, 14, 15] =
     (Nil_UUID, Some (ErrBinaryLength 15)) \<and>
   error_input (ErrBinaryLength 15) \<noteq>
     Some [1, 2, 3, 4, 5, 6, 7, 8, 9, 10, 11, 12, 13, 14, 15] \<and>
   UnmarshalBinary Nil_UUID [0, 0, 0, 0, 0, 0, 0, 0, 0, 0, 0, 0, 0, 0, 0] =
     UnmarshalBinary Nil_UUID [1, 2, 3, 4, 5, 6, 7, 8, 9, 10, 11, 12, 13, 14, 15]"
  by (simp add: UnmarshalBinary_def Size_def)

text \<open>
  Claim C9. Whenever \<open>FromString\<close> or \<open>FromBytes\<close> fails, \<open>FromStringOrNil\<close> or
  \<open>FromBytesOrNil\<close> returns the nil identifier, all 16 bytes zero; whenever the primary
  entry point succeeds, the wrapper returns the value it decoded.
\<close>

theorem OrNil_wrappers:
  "(snd (FromString s) \<noteq> None \<longrightarrow> FromStringOrNil s = Nil_UUID) \<and>
   (snd (FromString s) = None \<longrightarrow> FromStringOrNil s = fst (FromString s)) \<and>
   (snd (FromBytes b) \<noteq> None \<longrightarrow> FromBytesOrNil b = Nil_UUID) \<and>
   (snd (FromBytes b) = None \<longrightarrow> FromBytesOrNil b = fst (FromBytes b)) \<and>
   Nil_UUID = [0, 0, 0, 0, 0, 0, 0, 0, 0, 0, 0, 0, 0, 0, 0, 0]"
  by (auto simp: FromStringOrNil_def FromBytesOrNil_def Nil_UUID_bytes
      split: prod.splits option.splits)

theorem OrNil_wrappers_witness:
  "snd (FromString (bytes_of ''6ba7b810-9dad-11d1-80b4-00c04fd430cg'')) \<noteq> None \<and>
   fst (FromString (bytes_of ''6ba7b810-9dad-11d1-80b4-00c04fd430cg'')) \<noteq> Nil_UUID \<and>
   FromStringOrNil (bytes_of ''6ba7b810-9dad-11d1-80b4-00c04fd430cg'') = Nil_UUID \<and>
   snd (FromString (bytes_of ''6ba7b810-9dad-11d1-80b4-00c04fd430c8'')) = None \<and>
   FromStringOrNil (bytes_of ''6ba7b810-9dad-11d1-80b4-00c04fd430c8'') = NamespaceDNS_bytes \<and>
   snd (FromBytes [1, 2, 3]) \<noteq> None \<and>
   FromBytesOrNil [1, 2, 3] = Nil_UUID \<and>
   snd (FromBytes NamespaceDNS_bytes) = None \<and>
   FromBytesOrNil NamespaceDNS_bytes = NamespaceDNS_bytes"
proof -
  have "fst (FromString (bytes_of ''6ba7b810-9dad-11d1-80b4-00c04fd430cg'')) \<noteq> Nil_UUID"
    unfolding bad_digit_run by (simp add: Nil_UUID_bytes)
  then show ?thesis
    using OrNil_wrappers [of "bytes_of ''6ba7b810-9dad-11d1-80b4-00c04fd430cg''" "[1, 2, 3]"]
      OrNil_wrappers [of "bytes_of ''6ba7b810-9dad-11d1-80b4-00c04fd430c8''" NamespaceDNS_bytes]
    unfolding bad_digit_run short_bytes_run full_bytes_run dns_run
    by simp
qed

section \<open>Timestamps\<close>

text \<open>
  Claim C7. \<open>TimestampFromV1\<close> fails, with the version-mismatch error that holds the string
  form of \<open>u\<close> and its actual version, exactly when \<open>Version u\<close> is not 1. When it is 1 the
  result is the tick count \<open>time_low + (time_mid << 32) + (time_hi_masked << 48)\<close>, below
  \<open>2 ^ 60\<close>, where \<open>time_low\<close> is the big-endian value of bytes 0-3, \<open>time_mid\<close> that of
  bytes 4-5, and \<open>time_hi_masked\<close> that of bytes 6-7 without its top 4 bits. On the value
  parsed from \<open>6ba7b810-9dad-11d1-80b4-00c04fd430c8\<close> it succeeds with the tick count
  \<open>0x1d19dad6ba7b810\<close>.
\<close>

theorem TimestampFromV1_ticks:
  assumes "length u = Size"
  shows "(snd (TimestampFromV1 u) \<noteq> None \<longleftrightarrow> Version u \<noteq> 1) \<and>
         (Version u \<noteq> 1 \<longrightarrow>
            TimestampFromV1 u = (0, Some (ErrNotVersion1 (String u) (Version u)))) \<and>
         (Version u = 1 \<longrightarrow>
            snd (TimestampFromV1 u) = None \<and>
            unat (fst (TimestampFromV1 u)) =
              big_endian_value (subslice u 0 4) +
              big_endian_value (subslice u 4 6) * 2 ^ 32 +
              (big_endian_value (subslice u 6 8) mod 2 ^ 12) * 2 ^ 48 \<and>
            unat (fst (TimestampFromV1 u)) < 2 ^ 60) \<and>
         TimestampFromV1 (fst (FromString (bytes_of ''6ba7b810-9dad-11d1-80b4-00c04fd430c8''))) =
           (0x1d19dad6ba7b810, None)"
proof -
  from assms obtain a0 a1 a2 a3 a4 a5 a6 a7 a8 a9 a10 a11 a12 a13 a14 a15
    where u: "u = [a0, a1, a2, a3, a4, a5, a6, a7, a8, a9, a10, a11, a12, a13, a14, a15]"
    by (rule UUID_elements)
  have parts: "subslice u 0 4 = [a0, a1, a2, a3]" "subslice u 4 6 = [a4, a5]" "subslice u 6 8 = [a6, a7]"
    by (simp_all add: u subslice_def)
  let ?hi = "BigEndian_Uint16 [a6, a7] AND 0xfff"
  have hi: "unat ?hi = big_endian_value [a6, a7] mod 2 ^ 12"
    by (simp add: unat_mask12 unat_Uint16 big_endian_value_2)
  then have "unat ?hi < 2 ^ 12"
    by simp
  note ts = unat_timestamp_V1 [OF this, where a = "BigEndian_Uint32 [a0, a1, a2, a3]"
      and b = "BigEndian_Uint16 [a4, a5]"]
  have general:
    "(snd (TimestampFromV1 u) \<noteq> None \<longleftrightarrow> Version u \<noteq> 1) \<and>
     (Version u \<noteq> 1 \<longrightarrow>
        TimestampFromV1 u = (0, Some (ErrNotVersion1 (String u) (Version u)))) \<and>
     (Version u = 1 \<longrightarrow>
        snd (TimestampFromV1 u) = None \<and>
        unat (fst (TimestampFromV1 u)) =
          big_endian_value (subslice u 0 4) +
          big_endian_value (subslice u 4 6) * 2 ^ 32 +
          (big_endian_value (subslice u 6 8) mod 2 ^ 12) * 2 ^ 48 \<and>
        unat (fst (TimestampFromV1 u)) < 2 ^ 60)"
    using ts unfolding hi
    by (simp add: TimestampFromV1_def parts Let_def unat_Uint32 unat_Uint16
        big_endian_value_2 big_endian_value_4)
  have "TimestampFromV1 (fst (FromString (bytes_of ''6ba7b810-9dad-11d1-80b4-00c04fd430c8''))) =
          (0x1d19dad6ba7b810, None)"
    by (simp add: dns_run V1_dns_run)
  with general show ?thesis
    by blast
qed

theorem TimestampFromV1_ticks_witness:
  "length NamespaceDNS_bytes = Size \<and> Version NamespaceDNS_bytes = 1 \<and>
   snd (TimestampFromV1 NamespaceDNS_bytes) = None \<and>
   unat (fst (TimestampFromV1 NamespaceDNS_bytes)) =
     0x6ba7b810 + 0x9dad * 2 ^ 32 + 0x1d1 * 2 ^ 48 \<and>
   length Nil_UUID = Size \<and> Version Nil_UUID \<noteq> 1 \<and>
   TimestampFromV1 Nil_UUID =
     (0, Some (ErrNotVersion1 (bytes_of ''00000000-0000-0000-0000-000000000000'') 0))"
proof -
  have len: "length NamespaceDNS_bytes = Size" "length Nil_UUID = Size"
    by (simp_all add: NamespaceDNS_bytes_def Nil_UUID_def Size_def)
  have ver: "Version NamespaceDNS_bytes = 1" "Version Nil_UUID = 0"
    by (simp_all add: Version_def NamespaceDNS_bytes_def Nil_UUID_bytes)
  from TimestampFromV1_ticks [OF len(1)] TimestampFromV1_ticks [OF len(2)] len ver
  show ?thesis
    by (simp add: String_Nil_run V1_dns_run)
qed

text \<open>
  Claim C8. \<open>TimestampFromV6\<close> fails, with the version-mismatch error that holds the string
  form of \<open>u\<close> and its actual version, exactly when \<open>Version u\<close> is not 6. When it is 6 the
  result is the tick count \<open>time_low + (time_mid << 12) + (time_hi << 28)\<close>, below \<open>2 ^ 60\<close>,
  where \<open>time_hi\<close> is the big-endian value of bytes 0-3, \<open>time_mid\<close> that of bytes 4-5, and
  \<open>time_low\<close> that of bytes 6-7 without its top 4 bits.
\<close>

theorem TimestampFromV6_ticks:
  assumes "length u = Size"
  shows "(snd (TimestampFromV6 u) \<noteq> None \<longleftrightarrow> Version u \<noteq> 6) \<and>
         (Version u \<noteq> 6 \<longrightarrow>
            TimestampFromV6 u = (0, Some (ErrNotVersion6 (String u) (Version u)))) \<and>
         (Version u = 6 \<longrightarrow>
            snd (TimestampFromV6 u) = None \<and>
            unat (fst (TimestampFromV6 u)) =
              big_endian_value (subslice u 6 8) mod 2 ^ 12 +
              big_endian_value (subslice u 4 6) * 2 ^ 12 +
              big_endian_value (subslice u 0 4) * 2 ^ 28 \<and>
            unat (fst (TimestampFromV6 u)) < 2 ^ 60)"
proof -
  from assms obtain a0 a1 a2 a3 a4 a5 a6 a7 a8 a9 a10 a11 a12 a13 a14 a15
    where u: "u = [a0, a1, a2, a3, a4, a5, a6, a7, a8, a9, a10, a11, a12, a13, a14, a15]"
    by (rule UUID_elements)
  have parts: "subslice u 0 4 = [a0, a1, a2, a3]" "subslice u 4 6 = [a4, a5]" "subslice u 6 8 = [a6, a7]"
    by (simp_all add: u subslice_def)
  let ?low = "BigEndian_Uint16 [a6, a7] AND 0xfff"
  have low: "unat ?low = big_endian_value [a6, a7] mod 2 ^ 12"
    by (simp add: unat_mask12 unat_Uint16 big_endian_value_2)
  then have "unat ?low < 2 ^ 12"
    by simp
  note ts = unat_timestamp_V6 [OF this, where a = "BigEndian_Uint32 [a0, a1, a2, a3]"
      and b = "BigEndian_Uint16 [a4, a5]"]
  show ?thesis
    using ts unfolding low
    by (simp add: TimestampFromV6_def parts Let_def unat_Uint32 unat_Uint16
        big_endian_value_2 big_endian_value_4)
qed

theorem TimestampFromV6_ticks_witness:
  "length [0x1e, 0xc9, 0x41, 0x4c, 0x23, 0x2a, 0x6b, 0x00,
           0xb3, 0xc8, 0x9e, 0x6b, 0xde, 0xce, 0xd8, 0x46 :: u8] = Size \<and>
   Version [0x1e, 0xc9, 0x41, 0x4c, 0x23, 0x2a, 0x6b, 0x00,
            0xb3, 0xc8, 0x9e, 0x6b, 0xde, 0xce, 0xd8, 0x46] = 6 \<and>
   TimestampFromV6 [0x1e, 0xc9, 0x41, 0x4c, 0x23, 0x2a, 0x6b, 0x00,
                    0xb3, 0xc8, 0x9e, 0x6b, 0xde, 0xce, 0xd8, 0x46] =
     (0x1ec9414c232ab00, None) \<and>
   length NamespaceDNS_bytes = Size \<and> Version NamespaceDNS_bytes \<noteq> 6 \<and>
   TimestampFromV6 NamespaceDNS_bytes =
     (0, Some (ErrNotVersion6 (bytes_of ''6ba7b810-9dad-11d1-80b4-00c04fd430c8'') 1))"
proof -
  let ?v6 = "[0x1e, 0xc9, 0x41, 0x4c, 0x23, 0x2a, 0x6b, 0x00,
              0xb3, 0xc8, 0x9e, 0x6b, 0xde, 0xce, 0xd8, 0x46 :: u8]"
  have len: "length ?v6 = Size" "length NamespaceDNS_bytes = Size"
    by (simp_all add: NamespaceDNS_bytes_def Size_def)
  have ver: "Version ?v6 = 6" "Version NamespaceDNS_bytes = 1"
    by (simp_all add: Version_def NamespaceDNS_bytes_def)
  have run: "TimestampFromV6 ?v6 = (0x1ec9414c232ab00, None)"
    by (simp add: TimestampFromV6_def Version_def BigEndian_Uint32_def BigEndian_Uint16_def
        subslice_def)
  from TimestampFromV6_ticks [OF len(1)] TimestampFromV6_ticks [OF len(2)] len ver
  show ?thesis
    by (simp add: String_dns_run run)
qed

end
